theory Spec2Isabelle
  imports Complex_Main
begin

section \<open>Gesture keyboard: classification and debouncing (src/index.js)\<close>

text \<open>
  The program receives one hand-tracking result per camera frame in \<open>onResults\<close>, derives
  four finger states from the landmarks, classifies them into a gesture (a string, or
  \<open>null\<close>), and commits the gesture as a text-editing action once it has been seen on
  enough consecutive frames and the cooldown since the last action has passed.

  The embedding keeps the module's mutable globals in one record that is passed in and
  returned. Drawing and DOM feedback (status line, legend highlight, canvas label) do not
  influence these globals and are left out. \<open>Date.now()\<close> is read once per hand frame and is
  an argument of the model.
\<close>

subsection \<open>Data\<close>

text \<open>
  A landmark is a point with normalised coordinates. The only operation the program
  applies to a coordinate is the comparison \<open>tip.y < pip.y\<close>; on finite numbers it is the
  order of the reals.
\<close>

record landmark =
  lm_x :: real
  lm_y :: real

text \<open>Reading a property of \<open>undefined\<close> throws a TypeError.\<close>

datatype error = TypeError

text \<open>The four local booleans \<open>indexUp\<close>, \<open>middleUp\<close>, \<open>ringUp\<close>, \<open>pinkyUp\<close> of \<open>onResults\<close>.\<close>

record FingerState =
  indexUp :: bool
  middleUp :: bool
  ringUp :: bool
  pinkyUp :: bool

text \<open>
  The module-level variables \<open>prevDetectedGesture\<close> (\<open>None\<close> is \<open>null\<close>), \<open>stableCount\<close>,
  \<open>lastActionTime\<close>, and the text of the output element, \<open>output.value\<close>. The count is a
  natural number: \<open>stableCount++\<close> is exact below \<open>2 ^ 53\<close>, which no run of frames reaches.
  The clock readings are whole milliseconds. Edits of the output text by the keyboard
  between two frames are not part of the model.
\<close>

record state =
  prevDetectedGesture :: "string option"
  stableCount :: nat
  lastActionTime :: int
  output_value :: string

definition REQUIRED_CONSECUTIVE :: nat where
  "REQUIRED_CONSECUTIVE = 4"

definition ACTION_COOLDOWN :: int where
  "ACTION_COOLDOWN = 800"

text \<open>The values the globals are initialised with; \<open>out\<close> is the initial text of the output element.\<close>

definition initial :: "string \<Rightarrow> state" where
  "initial out =
     \<lparr>prevDetectedGesture = None, stableCount = 0, lastActionTime = 0, output_value = out\<rparr>"

subsection \<open>Finger states\<close>

text \<open>
  \<open>fingerIsUp(landmarks, tipIndex, pipIndex)\<close>: an index beyond the array reads
  \<open>undefined\<close>, whose \<open>.y\<close> throws.
\<close>

definition fingerIsUp :: "landmark list \<Rightarrow> nat \<Rightarrow> nat \<Rightarrow> error + bool" where
  "fingerIsUp landmarks tipIndex pipIndex =
     (if tipIndex < length landmarks \<and> pipIndex < length landmarks
      then Inr (lm_y (landmarks ! tipIndex) < lm_y (landmarks ! pipIndex))
      else Inl TypeError)"

text \<open>Lines 138 to 141 of \<open>onResults\<close>: the four calls, in order.\<close>

definition fingerStates :: "landmark list \<Rightarrow> error + FingerState" where
  "fingerStates landmarks =
     (case fingerIsUp landmarks 8 6 of Inl e \<Rightarrow> Inl e | Inr i \<Rightarrow>
      case fingerIsUp landmarks 12 10 of Inl e \<Rightarrow> Inl e | Inr m \<Rightarrow>
      case fingerIsUp landmarks 16 14 of Inl e \<Rightarrow> Inl e | Inr r \<Rightarrow>
      case fingerIsUp landmarks 20 18 of Inl e \<Rightarrow> Inl e | Inr p \<Rightarrow>
        Inr \<lparr>indexUp = i, middleUp = m, ringUp = r, pinkyUp = p\<rparr>)"

subsection \<open>Classification\<close>

text \<open>
  Lines 143 to 194 of \<open>onResults\<close>: the chain of \<open>if\<close>/\<open>else if\<close> that assigns \<open>gesture\<close>,
  which starts as \<open>null\<close>.
\<close>

definition classify :: "FingerState \<Rightarrow> string option" where
  "classify f =
     (let anyFingerUp = (indexUp f \<or> middleUp f \<or> ringUp f \<or> pinkyUp f) in
      if indexUp f \<and> middleUp f \<and> ringUp f \<and> pinkyUp f then Some ''SPACE''
      else if \<not> anyFingerUp then Some ''BACKSPACE''
      else if indexUp f \<and> middleUp f \<and> ringUp f \<and> \<not> pinkyUp f then Some ''D''
      else if indexUp f \<and> middleUp f \<and> ringUp f then Some ''C''
      else if middleUp f \<and> ringUp f \<and> pinkyUp f then Some ''F''
      else if indexUp f \<and> middleUp f \<and> \<not> ringUp f \<and> \<not> pinkyUp f then Some ''B''
      else if indexUp f \<and> ringUp f \<and> \<not> middleUp f \<and> \<not> pinkyUp f then Some ''E''
      else if middleUp f \<and> ringUp f \<and> \<not> indexUp f \<and> \<not> pinkyUp f then Some ''G''
      else if indexUp f \<and> \<not> middleUp f \<and> \<not> ringUp f \<and> \<not> pinkyUp f then Some ''A''
      else if middleUp f \<and> \<not> indexUp f \<and> \<not> ringUp f \<and> \<not> pinkyUp f then Some ''H''
      else if ringUp f \<and> \<not> indexUp f \<and> \<not> middleUp f \<and> \<not> pinkyUp f then Some ''I''
      else if pinkyUp f \<and> \<not> indexUp f \<and> \<not> middleUp f \<and> \<not> ringUp f then Some ''J''
      else None)"

subsection \<open>The action on the output text\<close>

text \<open>
  \<open>String.prototype.slice(start, end)\<close>: a negative index counts from the end, both are
  clamped to the string, and an empty span gives the empty string.
\<close>

definition slice :: "'a list \<Rightarrow> int \<Rightarrow> int \<Rightarrow> 'a list" where
  "slice s intStart intEnd =
     (let len = int (length s);
          fromIdx = (if intStart < 0 then max (len + intStart) 0 else min intStart len);
          toIdx = (if intEnd < 0 then max (len + intEnd) 0 else min intEnd len)
      in take (nat (toIdx - fromIdx)) (drop (nat fromIdx) s))"

text \<open>\<open>performAction(action)\<close>, its effect on \<open>output.value\<close>.\<close>

definition performAction :: "state \<Rightarrow> string \<Rightarrow> state" where
  "performAction s action =
     (if action = ''SPACE'' then s\<lparr>output_value := output_value s @ '' ''\<rparr>
      else if action = ''BACKSPACE'' then s\<lparr>output_value := slice (output_value s) 0 (- 1)\<rparr>
      else s\<lparr>output_value := output_value s @ action\<rparr>)"

subsection \<open>Debouncing\<close>

text \<open>
  Lines 201 to 215 of \<open>onResults\<close>. The second component of the result is the argument of
  the call of \<open>performAction\<close>, if the call happens. The condition \<open>gesture && ...\<close> is false
  for \<open>null\<close> and for the empty string.
\<close>

definition debounce :: "state \<Rightarrow> string option \<Rightarrow> int \<Rightarrow> state \<times> string option" where
  "debounce s gesture now =
     (let s1 = (if gesture = prevDetectedGesture s
                then s\<lparr>stableCount := stableCount s + 1\<rparr>
                else s\<lparr>stableCount := 1, prevDetectedGesture := gesture\<rparr>)
      in case gesture of
           None \<Rightarrow> (s1, None)
         | Some g \<Rightarrow>
             if g \<noteq> [] \<and> stableCount s1 \<ge> REQUIRED_CONSECUTIVE
                \<and> now - lastActionTime s1 > ACTION_COOLDOWN
             then ((performAction s1 g)
                     \<lparr>lastActionTime := now, prevDetectedGesture := None, stableCount := 0\<rparr>,
                   Some g)
             else (s1, None))"

text \<open>
  \<open>onResults(results)\<close>, with \<open>results.multiHandLandmarks\<close> as the second argument
  (\<open>None\<close> when the property is missing) and the reading of the clock as the third.
\<close>

fun onResults :: "state \<Rightarrow> landmark list list option \<Rightarrow> int \<Rightarrow> error + state \<times> string option" where
  "onResults s None now = Inr (s\<lparr>prevDetectedGesture := None, stableCount := 0\<rparr>, None)"
| "onResults s (Some []) now = Inr (s\<lparr>prevDetectedGesture := None, stableCount := 0\<rparr>, None)"
| "onResults s (Some (landmarks # _)) now =
     (case fingerStates landmarks of
        Inl e \<Rightarrow> Inl e
      | Inr f \<Rightarrow> Inr (debounce s (classify f) now))"

text \<open>
  A sequence of frames, each with the clock reading taken while it is processed. The
  result lists what each frame emitted. A frame that throws ends the run.
\<close>

fun run :: "state \<Rightarrow> (landmark list list option \<times> int) list \<Rightarrow> error + state \<times> string option list" where
  "run s [] = Inr (s, [])"
| "run s ((r, now) # frames) =
     (case onResults s r now of
        Inl e \<Rightarrow> Inl e
      | Inr (s', a) \<Rightarrow>
          (case run s' frames of
             Inl e \<Rightarrow> Inl e
           | Inr (s'', as) \<Rightarrow> Inr (s'', a # as)))"

subsection \<open>The classification rule as the specification words it\<close>

text \<open>
  The specification gives the classification as an ordered list of twelve shape
  predicates, each with its gesture; the first predicate that holds decides, and no match
  means no gesture. This definition follows that wording, to be compared with \<open>classify\<close>.
\<close>

definition spec_rules :: "((FingerState \<Rightarrow> bool) \<times> string) list" where
  "spec_rules =
     [(\<lambda>f. indexUp f \<and> middleUp f \<and> ringUp f \<and> pinkyUp f, ''SPACE''),
      (\<lambda>f. \<not> indexUp f \<and> \<not> middleUp f \<and> \<not> ringUp f \<and> \<not> pinkyUp f, ''BACKSPACE''),
      (\<lambda>f. indexUp f \<and> middleUp f \<and> ringUp f \<and> \<not> pinkyUp f, ''D''),
      (\<lambda>f. indexUp f \<and> middleUp f \<and> ringUp f, ''C''),
      (\<lambda>f. middleUp f \<and> ringUp f \<and> pinkyUp f, ''F''),
      (\<lambda>f. indexUp f \<and> middleUp f \<and> \<not> ringUp f \<and> \<not> pinkyUp f, ''B''),
      (\<lambda>f. indexUp f \<and> ringUp f \<and> \<not> middleUp f \<and> \<not> pinkyUp f, ''E''),
      (\<lambda>f. middleUp f \<and> ringUp f \<and> \<not> indexUp f \<and> \<not> pinkyUp f, ''G''),
      (\<lambda>f. indexUp f \<and> \<not> middleUp f \<and> \<not> ringUp f \<and> \<not> pinkyUp f, ''A''),
      (\<lambda>f. middleUp f \<and> \<not> indexUp f \<and> \<not> ringUp f \<and> \<not> pinkyUp f, ''H''),
      (\<lambda>f. ringUp f \<and> \<not> indexUp f \<and> \<not> middleUp f \<and> \<not> pinkyUp f, ''I''),
      (\<lambda>f. pinkyUp f \<and> \<not> indexUp f \<and> \<not> middleUp f \<and> \<not> ringUp f, ''J'')]"

definition spec_classify :: "FingerState \<Rightarrow> string option" where
  "spec_classify f = map_option snd (find (\<lambda>(p, g). p f) spec_rules)"

subsection \<open>Concrete frames\<close>

text \<open>
  A frame of 21 landmarks in which the tip of a finger lies above its middle joint
  exactly when the finger is asked to be up. It serves as input wherever a statement is
  evaluated at a concrete frame.
\<close>

definition pose :: "bool \<Rightarrow> bool \<Rightarrow> bool \<Rightarrow> bool \<Rightarrow> landmark list" where
  "pose i m r p =
     map (\<lambda>k. \<lparr>lm_x = 1 / 2,
               lm_y = (if k = 8 then (if i then 1 / 4 else 3 / 4)
                       else if k = 12 then (if m then 1 / 4 else 3 / 4)
                       else if k = 16 then (if r then 1 / 4 else 3 / 4)
                       else if k = 20 then (if p then 1 / 4 else 3 / 4)
                       else 1 / 2)\<rparr>) [0..<21]"

subsection \<open>Frames and histories\<close>

text \<open>
  \<open>classified r g\<close>: the frame \<open>r\<close> shows a hand whose landmarks can all be read, and the
  chain in \<open>onResults\<close> assigns \<open>g\<close> to \<open>gesture\<close> (\<open>None\<close> for no recognised shape).
\<close>

fun classified :: "landmark list list option \<Rightarrow> string option \<Rightarrow> bool" where
  "classified None g = False"
| "classified (Some []) g = False"
| "classified (Some (landmarks # _)) g =
     (case fingerStates landmarks of Inl e \<Rightarrow> False | Inr f \<Rightarrow> classify f = g)"

text \<open>
  The count as the specification's invariant words it: the number of immediately
  preceding frames, the current one included, whose classified gesture equals the
  candidate. The frames are listed oldest first.
\<close>

definition spec_trailing_count :: "string option \<Rightarrow> landmark list list option list \<Rightarrow> nat" where
  "spec_trailing_count candidate rs = length (takeWhile (\<lambda>r. classified r candidate) (rev rs))"

text \<open>
  The same count, going back no further than the most recent frame that emitted an
  action or showed no hand. A history pairs each frame with what it emitted.
\<close>

definition matches_since_reset ::
  "string option \<Rightarrow> (landmark list list option \<times> string option) list \<Rightarrow> nat" where
  "matches_since_reset candidate h =
     length (takeWhile (\<lambda>(r, a). classified r candidate \<and> a = None) (rev h))"

text \<open>
  The invariant that links the globals to the history: the count is the one above, and
  after a hand frame that emitted nothing the candidate is that frame's gesture.
\<close>

definition tracking :: "state \<Rightarrow> (landmark list list option \<times> string option) list \<Rightarrow> bool" where
  "tracking s h \<longleftrightarrow>
     stableCount s = matches_since_reset (prevDetectedGesture s) h
     \<and> (\<forall>h' r g. h = h' @ [(r, None)] \<and> classified r g \<longrightarrow> prevDetectedGesture s = g)"

section \<open>Properties\<close>

subsection \<open>Finger states and classification\<close>

lemma fingerStates_pose:
  "fingerStates (pose i m r p) = Inr \<lparr>indexUp = i, middleUp = m, ringUp = r, pinkyUp = p\<rparr>"
  by (simp add: fingerStates_def fingerIsUp_def pose_def)

lemma FingerState_cases4:
  obtains i m r p where "f = \<lparr>indexUp = i, middleUp = m, ringUp = r, pinkyUp = p\<rparr>"
  by (cases f) auto

text \<open>
  Claim C5. For every combination of the four finger states, \<open>classify\<close> returns what the
  first matching predicate of the twelve rules, taken in their listed order, prescribes,
  and no gesture when none matches; index and pinky up with middle and ring down gives no
  gesture.
\<close>

theorem classify_first_match:
  "classify f = spec_classify f
   \<and> classify \<lparr>indexUp = True, middleUp = False, ringUp = False, pinkyUp = True\<rparr> = None"
proof -
  obtain i m r p where f: "f = \<lparr>indexUp = i, middleUp = m, ringUp = r, pinkyUp = p\<rparr>"
    by (rule FingerState_cases4)
  have "classify f = spec_classify f"
    unfolding f by (cases i; cases m; cases r; cases p;
        simp add: classify_def spec_classify_def spec_rules_def)
  moreover have "classify \<lparr>indexUp = True, middleUp = False, ringUp = False, pinkyUp = True\<rparr> = None"
    by (simp add: classify_def)
  ultimately show ?thesis by simp
qed

text \<open>
  Claim C6. \<open>classify\<close> never returns the gesture C: whenever index, middle and ring are
  up, an earlier branch (all four up, or pinky down) has already decided.
\<close>

theorem classify_never_C: "classify f \<noteq> Some ''C''"
  by (simp add: classify_def)

subsection \<open>The output text\<close>

text \<open>
  Claim C10. BACKSPACE on an empty output text leaves it empty: removing the last
  character of the empty string gives the empty string, and nothing fails.
\<close>

theorem backspace_on_empty:
  "slice ([] :: string) 0 (- 1) = []
   \<and> performAction (s\<lparr>output_value := []\<rparr>) ''BACKSPACE'' = s\<lparr>output_value := []\<rparr>"
  by (simp add: slice_def performAction_def)

subsection \<open>One frame\<close>

lemma classified_hand:
  assumes "classified r g"
  obtains landmarks rest f where "r = Some (landmarks # rest)"
    and "fingerStates landmarks = Inr f" and "classify f = g"
  using assms by (cases "(r, g)" rule: classified.cases) (auto split: sum.splits)

lemma classified_unique: "classified r g \<Longrightarrow> classified r g' \<Longrightarrow> g = g'"
  by (cases "(r, g)" rule: classified.cases) (auto split: sum.splits)

lemma classify_nonempty: "classify f = Some g \<Longrightarrow> g \<noteq> []"
  by (auto simp: classify_def Let_def split: if_splits)

lemma classified_nonempty: "classified r (Some g) \<Longrightarrow> g \<noteq> []"
  by (erule classified_hand) (rule classify_nonempty)

lemma onResults_classified: "classified r g \<Longrightarrow> onResults s r now = Inr (debounce s g now)"
  by (erule classified_hand) simp

lemma onResults_cases:
  assumes "onResults s r now = Inr (s', a)"
  obtains (nohand) "\<And>g. \<not> classified r g"
      and "s' = s\<lparr>prevDetectedGesture := None, stableCount := 0\<rparr>" and "a = None"
    | (hand) g where "classified r g" and "debounce s g now = (s', a)"
  using assms by (cases "(s, r, now)" rule: onResults.cases) (auto split: sum.splits)

lemma debounce_emit:
  assumes "debounce s g now = (s', Some a)"
  shows "g = Some a" and "a \<noteq> []"
    and "REQUIRED_CONSECUTIVE \<le> (if g = prevDetectedGesture s then stableCount s + 1 else 1)"
    and "ACTION_COOLDOWN < now - lastActionTime s"
    and "lastActionTime s' = now" and "prevDetectedGesture s' = None" and "stableCount s' = 0"
  using assms
  by (auto simp: debounce_def Let_def performAction_def split: option.splits if_splits)

lemma debounce_quiet:
  assumes "debounce s g now = (s', None)"
  shows "s' = (if g = prevDetectedGesture s then s\<lparr>stableCount := stableCount s + 1\<rparr>
               else s\<lparr>stableCount := 1, prevDetectedGesture := g\<rparr>)"
  using assms
  by (auto simp: debounce_def Let_def split: option.splits if_splits)

lemma debounce_emits_iff:
  "(snd (debounce s g now) \<noteq> None) =
     ((\<exists>x. g = Some x \<and> x \<noteq> [])
      \<and> REQUIRED_CONSECUTIVE \<le> (if g = prevDetectedGesture s then stableCount s + 1 else 1)
      \<and> ACTION_COOLDOWN < now - lastActionTime s)"
  by (auto simp: debounce_def Let_def split: option.splits)

lemmas eval_simps = fingerStates_pose classify_def debounce_def performAction_def slice_def
  Let_def REQUIRED_CONSECUTIVE_def ACTION_COOLDOWN_def initial_def

text \<open>
  Claim C1, amended. For every frame processed while a hand is present, an action is
  emitted if and only if the classified gesture is not NONE, the consecutive count (after
  this frame's update) has reached \<open>REQUIRED_CONSECUTIVE\<close>, and the time since the last
  emitted action is strictly greater than \<open>ACTION_COOLDOWN\<close>; on emission the action is the
  gesture, \<open>lastActionTime\<close> becomes the current time and candidate and count are reset to
  \<open>null\<close> and 0.
\<close>

theorem onResults_emits_iff:
  assumes "fingerStates landmarks = Inr f"
  shows "\<exists>s' a. onResults s (Some (landmarks # rest)) now = Inr (s', a)
     \<and> (a \<noteq> None) =
         (classify f \<noteq> None
          \<and> REQUIRED_CONSECUTIVE \<le>
               (if classify f = prevDetectedGesture s then stableCount s + 1 else 1)
          \<and> ACTION_COOLDOWN < now - lastActionTime s)
     \<and> (a \<noteq> None \<longrightarrow>
           a = classify f \<and> lastActionTime s' = now
           \<and> prevDetectedGesture s' = None \<and> stableCount s' = 0)"
proof -
  obtain s' a where d: "debounce s (classify f) now = (s', a)"
    by (cases "debounce s (classify f) now")
  have r: "onResults s (Some (landmarks # rest)) now = Inr (s', a)"
    using assms d by simp
  have "(\<exists>x. classify f = Some x \<and> x \<noteq> []) = (classify f \<noteq> None)"
    using classify_nonempty by auto
  then have iff: "(a \<noteq> None) =
         (classify f \<noteq> None
          \<and> REQUIRED_CONSECUTIVE \<le>
               (if classify f = prevDetectedGesture s then stableCount s + 1 else 1)
          \<and> ACTION_COOLDOWN < now - lastActionTime s)"
    using debounce_emits_iff [of s "classify f" now] d by simp
  have "a \<noteq> None \<longrightarrow>
           a = classify f \<and> lastActionTime s' = now
           \<and> prevDetectedGesture s' = None \<and> stableCount s' = 0"
    using d debounce_emit [of s "classify f" now s'] by auto
  with r iff show ?thesis by blast
qed

text \<open>
  At a concrete frame: the index finger alone, seen for the fourth time in a row, 801 ms
  after the last action, types another A.
\<close>

theorem onResults_emits_iff_witness:
  "onResults \<lparr>prevDetectedGesture = Some ''A'', stableCount = 3, lastActionTime = 1003,
              output_value = ''A''\<rparr> (Some [pose True False False False]) 1804
     = Inr (\<lparr>prevDetectedGesture = None, stableCount = 0, lastActionTime = 1804,
              output_value = ''AA''\<rparr>, Some ''A'')"
  using onResults_emits_iff [where landmarks = "pose True False False False" and rest = "[]"
      and now = 1804 and s = "\<lparr>prevDetectedGesture = Some ''A'', stableCount = 3,
        lastActionTime = 1003, output_value = ''A''\<rparr>", OF fingerStates_pose]
  by (simp add: eval_simps)

text \<open>
  The claim as first stated, with "at least \<open>ACTION_COOLDOWN\<close>", fails when exactly 800 ms
  have passed. Seven frames of the index finger alone lead from the initial state to
  candidate A with count 3 and the last action at 1003; the eighth frame arrives at 1803:
  the gesture is A, the count reaches 4, the elapsed time is 800, and nothing is emitted.
\<close>

theorem cooldown_boundary_counterexample:
  "run (initial [])
       [(Some [pose True False False False], 1000), (Some [pose True False False False], 1001),
        (Some [pose True False False False], 1002), (Some [pose True False False False], 1003),
        (Some [pose True False False False], 1800), (Some [pose True False False False], 1801),
        (Some [pose True False False False], 1802)]
     = Inr (\<lparr>prevDetectedGesture = Some ''A'', stableCount = 3, lastActionTime = 1003,
              output_value = ''A''\<rparr>,
            [None, None, None, Some ''A'', None, None, None])
   \<and> onResults \<lparr>prevDetectedGesture = Some ''A'', stableCount = 3, lastActionTime = 1003,
              output_value = ''A''\<rparr> (Some [pose True False False False]) 1803
     = Inr (\<lparr>prevDetectedGesture = Some ''A'', stableCount = 4, lastActionTime = 1003,
              output_value = ''A''\<rparr>, None)
   \<and> classify \<lparr>indexUp = True, middleUp = False, ringUp = False, pinkyUp = False\<rparr> = Some ''A''
   \<and> REQUIRED_CONSECUTIVE \<le> 3 + 1
   \<and> ACTION_COOLDOWN \<le> 1803 - 1003"
  by (simp add: eval_simps)

text \<open>
  Claim C4. In every state, a frame without a hand (no landmark list at all, or an empty
  one) resets candidate and count to \<open>null\<close> and 0, emits nothing and leaves
  \<open>lastActionTime\<close> as it was; the next hand frame, whatever its gesture and whatever the
  count was before, starts again at 1 and emits nothing.
\<close>

theorem no_hand_resets:
  assumes "fingerStates landmarks = Inr f"
  shows "onResults s None now = Inr (s\<lparr>prevDetectedGesture := None, stableCount := 0\<rparr>, None)
     \<and> onResults s (Some []) now = Inr (s\<lparr>prevDetectedGesture := None, stableCount := 0\<rparr>, None)
     \<and> lastActionTime (s\<lparr>prevDetectedGesture := None, stableCount := 0\<rparr>) = lastActionTime s
     \<and> onResults (s\<lparr>prevDetectedGesture := None, stableCount := 0\<rparr>)
          (Some (landmarks # rest)) now'
        = Inr (s\<lparr>prevDetectedGesture := classify f, stableCount := 1\<rparr>, None)"
  using assms
  by (auto simp: debounce_def Let_def REQUIRED_CONSECUTIVE_def split: option.splits)

theorem no_hand_resets_witness:
  "onResults \<lparr>prevDetectedGesture = Some ''A'', stableCount = 3, lastActionTime = 0,
              output_value = []\<rparr> None 1000
     = Inr (\<lparr>prevDetectedGesture = None, stableCount = 0, lastActionTime = 0,
              output_value = []\<rparr>, None)
   \<and> onResults \<lparr>prevDetectedGesture = None, stableCount = 0, lastActionTime = 0,
              output_value = []\<rparr> (Some [pose True False False False]) 1100
     = Inr (\<lparr>prevDetectedGesture = Some ''A'', stableCount = 1, lastActionTime = 0,
              output_value = []\<rparr>, None)"
  using no_hand_resets [where landmarks = "pose True False False False" and rest = "[]"
      and now = 1000 and now' = 1100 and s = "\<lparr>prevDetectedGesture = Some ''A'', stableCount = 3,
        lastActionTime = 0, output_value = []\<rparr>", OF fingerStates_pose]
  by (simp add: classify_def)

subsection \<open>Sequences of frames\<close>

lemma run_snoc:
  "run s (frames @ [(r, t)]) =
     (case run s frames of
        Inl e \<Rightarrow> Inl e
      | Inr (s1, outs) \<Rightarrow>
          (case onResults s1 r t of
             Inl e \<Rightarrow> Inl e
           | Inr (s2, a) \<Rightarrow> Inr (s2, outs @ [a])))"
  by (induction frames arbitrary: s) (auto split: sum.splits prod.splits)

lemma run_length: "run s frames = Inr (s', outs) \<Longrightarrow> length outs = length frames"
  by (induction frames arbitrary: s s' outs) (auto split: sum.splits prod.splits)

lemma matches_since_reset_snoc:
  "matches_since_reset c (h @ [(r, a)]) =
     (if classified r c \<and> a = None then Suc (matches_since_reset c h) else 0)"
  by (simp add: matches_since_reset_def)

lemma tracking_step:
  assumes t: "tracking s h" and o: "onResults s r now = Inr (s', a)"
  shows "tracking s' (h @ [(r, a)])"
  using o
proof (cases rule: onResults_cases)
  case nohand
  then show ?thesis by (simp add: tracking_def matches_since_reset_snoc)
next
  case (hand g)
  show ?thesis
  proof (cases a)
    case (Some x)
    with hand debounce_emit [of s g now s' x] show ?thesis
      by (simp add: tracking_def matches_since_reset_snoc)
  next
    case None
    note s' = debounce_quiet [OF hand(2) [unfolded None]]
    show ?thesis
    proof (cases "g = prevDetectedGesture s")
      case True
      with s' t hand(1) None show ?thesis
        by (auto simp: tracking_def matches_since_reset_snoc dest: classified_unique)
    next
      case False
      have "matches_since_reset g h = 0"
      proof (cases h rule: rev_cases)
        case Nil
        then show ?thesis by (simp add: matches_since_reset_def)
      next
        case (snoc h' x)
        obtain r0 a0 where x: "x = (r0, a0)" by (cases x)
        have "\<not> (classified r0 g \<and> a0 = None)"
          using t False snoc x by (auto simp: tracking_def)
        then show ?thesis unfolding snoc x by (simp add: matches_since_reset_snoc)
      qed
      with s' False hand(1) None show ?thesis
        by (auto simp: tracking_def matches_since_reset_snoc dest: classified_unique)
    qed
  qed
qed

lemma tracking_run:
  "run (initial out) frames = Inr (s, outs) \<Longrightarrow> tracking s (zip (map fst frames) outs)"
proof (induction frames arbitrary: s outs rule: rev_induct)
  case Nil
  then show ?case by (auto simp: tracking_def initial_def matches_since_reset_def)
next
  case (snoc x frames)
  obtain r t where x: "x = (r, t)" by (cases x)
  from snoc.prems obtain s1 outs1 a where
    r1: "run (initial out) frames = Inr (s1, outs1)" and
    o: "onResults s1 r t = Inr (s, a)" and outs: "outs = outs1 @ [a]"
    unfolding x run_snoc by (auto split: sum.splits prod.splits)
  have len: "length outs1 = length frames" using r1 by (rule run_length)
  have "tracking s (zip (map fst frames) outs1 @ [(r, a)])"
    using snoc.IH [OF r1] o by (rule tracking_step)
  then show ?case unfolding x outs using len by simp
qed

lemma change_resets:
  assumes "classified r1 g1" "classified r2 g2" "g1 \<noteq> g2"
  shows "\<exists>s' a1. run s [(r1, t1), (r2, t2)] = Inr (s', [a1, None]) \<and> stableCount s' = 1
           \<and> prevDetectedGesture s' = g2"
proof -
  obtain s1 a1 where d1: "debounce s g1 t1 = (s1, a1)" by (cases "debounce s g1 t1")
  have s1: "(prevDetectedGesture s1 = g1 \<and> a1 = None) \<or> (prevDetectedGesture s1 = None \<and> stableCount s1 = 0)"
  proof (cases a1)
    case None
    with d1 debounce_quiet [of s g1 t1 s1] show ?thesis by (auto split: if_splits)
  next
    case (Some x)
    with d1 debounce_emit [of s g1 t1 s1 x] show ?thesis by simp
  qed
  have "debounce s1 g2 t2 = (s1\<lparr>stableCount := 1, prevDetectedGesture := g2\<rparr>, None)"
    using s1 assms(3)
    by (auto simp: debounce_def Let_def REQUIRED_CONSECUTIVE_def split: option.splits)
  then show ?thesis
    using d1 assms(1,2) by (simp add: onResults_classified)
qed

text \<open>
  Claim C2, amended. In every state reached from the initial one, the count equals the
  number of immediately preceding frames, the current one included and going back no
  further than the most recent frame that emitted an action or showed no hand, whose
  classified gesture equals the candidate; and when the classified gesture changes from
  one hand frame to the next, the count is 1 afterwards, from any state.
\<close>

theorem stableCount_counts_since_reset:
  "(run (initial out) frames = Inr (s, outs) \<longrightarrow>
      stableCount s = matches_since_reset (prevDetectedGesture s) (zip (map fst frames) outs))
   \<and> (classified r1 g1 \<and> classified r2 g2 \<and> g1 \<noteq> g2 \<longrightarrow>
        (\<exists>s'' a1. run s0 [(r1, t1), (r2, t2)] = Inr (s'', [a1, None]) \<and> stableCount s'' = 1))"
proof (intro conjI impI)
  assume "run (initial out) frames = Inr (s, outs)"
  then have "tracking s (zip (map fst frames) outs)" by (rule tracking_run)
  then show "stableCount s = matches_since_reset (prevDetectedGesture s) (zip (map fst frames) outs)"
    by (simp add: tracking_def)
next
  assume "classified r1 g1 \<and> classified r2 g2 \<and> g1 \<noteq> g2"
  then show "\<exists>s'' a1. run s0 [(r1, t1), (r2, t2)] = Inr (s'', [a1, None]) \<and> stableCount s'' = 1"
    using change_resets [of r1 g1 r2 g2 s0 t1 t2] by blast
qed

text \<open>
  At a concrete run: five fists in a row, the fourth of which deletes a character; the
  count after the fifth is 1. And a fist followed by the index finger alone leaves the
  count at 1.
\<close>

theorem stableCount_counts_since_reset_witness:
  "run (initial ''xy'')
       [(Some [pose False False False False], 1000), (Some [pose False False False False], 1100),
        (Some [pose False False False False], 1200), (Some [pose False False False False], 1300),
        (Some [pose False False False False], 1400)]
     = Inr (\<lparr>prevDetectedGesture = Some ''BACKSPACE'', stableCount = 1, lastActionTime = 1300,
              output_value = ''x''\<rparr>,
            [None, None, None, Some ''BACKSPACE'', None])
   \<and> matches_since_reset (Some ''BACKSPACE'')
        [(Some [pose False False False False], None), (Some [pose False False False False], None),
         (Some [pose False False False False], None),
         (Some [pose False False False False], Some ''BACKSPACE''),
         (Some [pose False False False False], None)] = 1
   \<and> (\<exists>s'' a1. run (initial ''xy'')
          [(Some [pose False False False False], 1000), (Some [pose True False False False], 1100)]
        = Inr (s'', [a1, None]) \<and> stableCount s'' = 1)"
proof -
  let ?fist = "Some [pose False False False False]"
  let ?frames = "[(?fist, 1000), (?fist, 1100), (?fist, 1200), (?fist, 1300), (?fist, 1400::int)]"
  let ?s = "\<lparr>prevDetectedGesture = Some ''BACKSPACE'', stableCount = 1, lastActionTime = 1300,
              output_value = ''x''\<rparr>"
  let ?outs = "[None, None, None, Some ''BACKSPACE'', None]"
  have r: "run (initial ''xy'') ?frames = Inr (?s, ?outs)"
    by (simp add: eval_simps)
  have c: "classified ?fist (Some ''BACKSPACE'')
      \<and> classified (Some [pose True False False False]) (Some ''A'')
      \<and> Some ''BACKSPACE'' \<noteq> Some ''A''"
    by (simp add: fingerStates_pose classify_def)
  from stableCount_counts_since_reset [of "''xy''" ?frames ?s ?outs ?fist "Some ''BACKSPACE''"
      "Some [pose True False False False]" "Some ''A''" "initial ''xy''" 1000 1100] r c
  have "stableCount ?s = matches_since_reset (prevDetectedGesture ?s) (zip (map fst ?frames) ?outs)"
    and e: "\<exists>s'' a1. run (initial ''xy'')
          [(?fist, 1000), (Some [pose True False False False], 1100)]
        = Inr (s'', [a1, None]) \<and> stableCount s'' = 1"
    by blast+
  then have "matches_since_reset (Some ''BACKSPACE'') (zip (map fst ?frames) ?outs) = 1"
    by simp
  then show ?thesis using r e by simp
qed

text \<open>
  The claim as first stated counts all immediately preceding frames with the candidate's
  gesture. After the same five fists the candidate is BACKSPACE and all five frames show
  it, while the count is 1: the emission on the fourth frame has reset it.
\<close>

theorem stale_count_counterexample:
  "run (initial ''xy'')
       [(Some [pose False False False False], 1000), (Some [pose False False False False], 1100),
        (Some [pose False False False False], 1200), (Some [pose False False False False], 1300),
        (Some [pose False False False False], 1400)]
     = Inr (\<lparr>prevDetectedGesture = Some ''BACKSPACE'', stableCount = 1, lastActionTime = 1300,
              output_value = ''x''\<rparr>,
            [None, None, None, Some ''BACKSPACE'', None])
   \<and> spec_trailing_count (Some ''BACKSPACE'')
        [Some [pose False False False False], Some [pose False False False False],
         Some [pose False False False False], Some [pose False False False False],
         Some [pose False False False False]] = 5"
  by (simp add: eval_simps spec_trailing_count_def)

text \<open>
  Claim C3, amended. From the initial state, four consecutive fist frames at clock
  readings \<open>T\<close>, \<open>T + 100\<close>, \<open>T + 200\<close>, \<open>T + 300\<close> emit BACKSPACE exactly once, on the
  fourth frame, provided \<open>T + 300\<close> exceeds \<open>ACTION_COOLDOWN\<close>: the cooldown is measured
  against \<open>lastActionTime\<close>, which starts at 0.
\<close>

theorem four_fists_after_cooldown:
  assumes "ACTION_COOLDOWN < T + 300"
  shows "run (initial out)
       [(Some [pose False False False False], T), (Some [pose False False False False], T + 100),
        (Some [pose False False False False], T + 200), (Some [pose False False False False], T + 300)]
     = Inr (\<lparr>prevDetectedGesture = None, stableCount = 0, lastActionTime = T + 300,
              output_value = slice out 0 (- 1)\<rparr>,
            [None, None, None, Some ''BACKSPACE''])"
  using assms by (simp add: fingerStates_pose classify_def debounce_def performAction_def
      Let_def REQUIRED_CONSECUTIVE_def initial_def)

theorem four_fists_after_cooldown_witness:
  "run (initial ''ab'')
       [(Some [pose False False False False], 1000), (Some [pose False False False False], 1100),
        (Some [pose False False False False], 1200), (Some [pose False False False False], 1300)]
     = Inr (\<lparr>prevDetectedGesture = None, stableCount = 0, lastActionTime = 1300,
              output_value = ''a''\<rparr>,
            [None, None, None, Some ''BACKSPACE''])"
proof -
  have h: "ACTION_COOLDOWN < 1000 + 300" by (simp add: ACTION_COOLDOWN_def)
  from four_fists_after_cooldown [OF h, of "''ab''"] show ?thesis
    by (simp add: slice_def)
qed

text \<open>
  With the clock readings 0, 100, 200, 300 themselves, the fourth frame reaches count 4
  but 300 ms since \<open>lastActionTime = 0\<close> is within the cooldown: nothing is emitted.
\<close>

theorem four_fists_counterexample:
  "run (initial [])
       [(Some [pose False False False False], 0), (Some [pose False False False False], 100),
        (Some [pose False False False False], 200), (Some [pose False False False False], 300)]
     = Inr (\<lparr>prevDetectedGesture = Some ''BACKSPACE'', stableCount = 4, lastActionTime = 0,
              output_value = []\<rparr>,
            [None, None, None, None])"
  by (simp add: eval_simps)

lemma length3:
  assumes "length xs = 3"
  obtains a b c where "xs = [a, b, c]"
  using assms by (auto simp: length_Suc_conv numeral_3_eq_3)

lemma debounce_first:
  "debounce (initial out) (Some g) t = ((initial out)\<lparr>stableCount := 1, prevDetectedGesture := Some g\<rparr>, None)"
  by (simp add: debounce_def initial_def REQUIRED_CONSECUTIVE_def)

lemma debounce_same:
  "prevDetectedGesture s = Some g \<Longrightarrow> stableCount s + 1 < REQUIRED_CONSECUTIVE \<Longrightarrow>
   debounce s (Some g) t = (s\<lparr>stableCount := stableCount s + 1\<rparr>, None)"
  by (simp add: debounce_def)

lemma three_same:
  assumes "length frames = REQUIRED_CONSECUTIVE - 1"
    and "\<forall>(r, t) \<in> set frames. classified r (Some g)"
  shows "run (initial out) frames =
     Inr ((initial out)\<lparr>stableCount := 3, prevDetectedGesture := Some g\<rparr>, [None, None, None])"
proof -
  from assms(1) have "length frames = 3" by (simp add: REQUIRED_CONSECUTIVE_def)
  then obtain a b c where f: "frames = [a, b, c]" by (rule length3)
  obtain r1 t1 r2 t2 r3 t3 where abc: "a = (r1, t1)" "b = (r2, t2)" "c = (r3, t3)"
    by (cases a, cases b, cases c) auto
  from assms(2) have c: "classified r1 (Some g)" "classified r2 (Some g)" "classified r3 (Some g)"
    unfolding f abc by simp_all
  show ?thesis unfolding f abc
    by (simp add: onResults_classified [OF c(1)] onResults_classified [OF c(2)]
        onResults_classified [OF c(3)] debounce_first debounce_same REQUIRED_CONSECUTIVE_def)
qed

text \<open>
  Claim C7. From the initial state, \<open>REQUIRED_CONSECUTIVE - 1\<close> frames classified as the
  same gesture \<open>g\<close>, followed by one frame classified differently, emit nothing on any of
  the frames, whatever the clock readings.
\<close>

theorem short_run_never_emits:
  assumes "length frames = REQUIRED_CONSECUTIVE - 1"
    and "\<forall>(r, t) \<in> set frames. classified r (Some g)"
    and "classified r' g'" and "g' \<noteq> Some g"
  shows "\<exists>s'. run (initial out) (frames @ [(r', t')])
            = Inr (s', replicate REQUIRED_CONSECUTIVE None)"
proof -
  have "debounce ((initial out)\<lparr>stableCount := 3, prevDetectedGesture := Some g\<rparr>) g' t'
          = ((initial out)\<lparr>stableCount := 1, prevDetectedGesture := g'\<rparr>, None)"
    using assms(4) by (auto simp: debounce_def Let_def REQUIRED_CONSECUTIVE_def split: option.splits)
  then show ?thesis
    using three_same [OF assms(1,2), of out] assms(3)
    by (simp add: run_snoc onResults_classified REQUIRED_CONSECUTIVE_def numeral_eq_Suc)
qed

theorem short_run_never_emits_witness:
  "\<exists>s'. run (initial [])
       [(Some [pose True False False False], 1000), (Some [pose True False False False], 1100),
        (Some [pose True False False False], 1200), (Some [pose True True True True], 1300)]
     = Inr (s', [None, None, None, None])"
proof -
  let ?a = "Some [pose True False False False]"
  let ?frames = "[(?a, 1000), (?a, 1100), (?a, 1200::int)]"
  have h1: "length ?frames = REQUIRED_CONSECUTIVE - 1" by (simp add: REQUIRED_CONSECUTIVE_def)
  have h2: "\<forall>(r, t) \<in> set ?frames. classified r (Some ''A'')"
    by (simp add: fingerStates_pose classify_def)
  have h3: "classified (Some [pose True True True True]) (Some ''SPACE'')"
    by (simp add: fingerStates_pose classify_def)
  have h4: "Some ''SPACE'' \<noteq> Some ''A''" by simp
  from short_run_never_emits [OF h1 h2 h3 h4, of "[]" 1300] show ?thesis
    by (simp add: REQUIRED_CONSECUTIVE_def numeral_eq_Suc)
qed

text \<open>
  Claim C8. From the initial state, \<open>REQUIRED_CONSECUTIVE\<close> consecutive frames classified
  as the same gesture \<open>g\<close>, with the cooldown check passing on the last of them, emit
  exactly one action, \<open>g\<close>, on the last frame; all four fingers up is SPACE.
\<close>

theorem stable_run_emits_once:
  assumes "length frames = REQUIRED_CONSECUTIVE"
    and "\<forall>(r, t) \<in> set frames. classified r (Some g)"
    and "ACTION_COOLDOWN < snd (last frames) - lastActionTime (initial out)"
  shows "(\<exists>s'. run (initial out) frames
             = Inr (s', replicate (REQUIRED_CONSECUTIVE - 1) None @ [Some g]))
     \<and> classify \<lparr>indexUp = True, middleUp = True, ringUp = True, pinkyUp = True\<rparr> = Some ''SPACE''"
proof -
  from assms(1) obtain fs x where f: "frames = fs @ [x]"
    by (cases frames rule: rev_cases) (auto simp: REQUIRED_CONSECUTIVE_def)
  obtain r t where x: "x = (r, t)" by (cases x)
  have len: "length fs = REQUIRED_CONSECUTIVE - 1" using assms(1) f by simp
  have cl: "\<forall>(r, t) \<in> set fs. classified r (Some g)" and c: "classified r (Some g)"
    using assms(2) f x by auto
  have g: "g \<noteq> []" using c by (rule classified_nonempty)
  have t: "ACTION_COOLDOWN < t" using assms(3) f x by (simp add: initial_def)
  have "\<exists>s'. debounce ((initial out)\<lparr>stableCount := 3, prevDetectedGesture := Some g\<rparr>) (Some g) t
          = (s', Some g)"
    using g t by (simp add: debounce_def REQUIRED_CONSECUTIVE_def initial_def)
  then have "\<exists>s'. run (initial out) frames
             = Inr (s', replicate (REQUIRED_CONSECUTIVE - 1) None @ [Some g])"
    unfolding f x using three_same [OF len cl, of out] c
    by (auto simp: run_snoc onResults_classified REQUIRED_CONSECUTIVE_def numeral_eq_Suc)
  moreover have "classify \<lparr>indexUp = True, middleUp = True, ringUp = True, pinkyUp = True\<rparr> = Some ''SPACE''"
    by (simp add: classify_def)
  ultimately show ?thesis by simp
qed

theorem stable_run_emits_once_witness:
  "\<exists>s'. run (initial [])
       [(Some [pose True True True True], 1000), (Some [pose True True True True], 1100),
        (Some [pose True True True True], 1200), (Some [pose True True True True], 1300)]
     = Inr (s', [None, None, None, Some ''SPACE''])"
proof -
  let ?p = "Some [pose True True True True]"
  let ?frames = "[(?p, 1000), (?p, 1100), (?p, 1200), (?p, 1300::int)]"
  have h1: "length ?frames = REQUIRED_CONSECUTIVE" by (simp add: REQUIRED_CONSECUTIVE_def)
  have h2: "\<forall>(r, t) \<in> set ?frames. classified r (Some ''SPACE'')"
    by (simp add: fingerStates_pose classify_def)
  have h3: "ACTION_COOLDOWN < snd (last ?frames) - lastActionTime (initial [])"
    by (simp add: ACTION_COOLDOWN_def initial_def)
  from stable_run_emits_once [OF h1 h2 h3] show ?thesis
    by (simp add: REQUIRED_CONSECUTIVE_def numeral_eq_Suc)
qed

lemma first_emission_bound:
  assumes "\<forall>(r, t) \<in> set frames. \<exists>g. classified r g"
  shows "\<exists>s' outs. run s frames = Inr (s', outs) \<and> length outs = length frames
     \<and> (\<forall>i < length frames. outs ! i \<noteq> None \<and> (\<forall>j < i. outs ! j = None) \<longrightarrow>
            REQUIRED_CONSECUTIVE \<le> stableCount s + i + 1
            \<and> ACTION_COOLDOWN < snd (frames ! i) - lastActionTime s)"
  using assms
proof (induction frames arbitrary: s)
  case Nil
  then show ?case by simp
next
  case (Cons x frames)
  obtain r t where x: "x = (r, t)" by (cases x)
  from Cons.prems x obtain g where g: "classified r g" by auto
  obtain s1 a where d: "debounce s g t = (s1, a)" by (cases "debounce s g t")
  have o: "onResults s r t = Inr (s1, a)" using g d by (simp add: onResults_classified)
  from Cons.prems have "\<forall>(r, t) \<in> set frames. \<exists>g. classified r g" by simp
  from Cons.IH [OF this, of s1] obtain s' outs where
    r: "run s1 frames = Inr (s', outs)" and len: "length outs = length frames" and
    b: "\<And>i. i < length frames \<Longrightarrow> outs ! i \<noteq> None \<Longrightarrow> (\<forall>j < i. outs ! j = None) \<Longrightarrow>
            REQUIRED_CONSECUTIVE \<le> stableCount s1 + i + 1
            \<and> ACTION_COOLDOWN < snd (frames ! i) - lastActionTime s1"
    by blast
  have run: "run s (x # frames) = Inr (s', a # outs)" using o r x by simp
  have "REQUIRED_CONSECUTIVE \<le> stableCount s + i + 1
            \<and> ACTION_COOLDOWN < snd ((x # frames) ! i) - lastActionTime s"
    if i: "i < length (x # frames)" and e: "(a # outs) ! i \<noteq> None"
      and q: "\<forall>j < i. (a # outs) ! j = None" for i
  proof (cases i)
    case 0
    with e obtain y where "a = Some y" by auto
    with d debounce_emit [of s g t s1 y] 0 x show ?thesis by (auto split: if_splits)
  next
    case (Suc k)
    with q have "a = None" by auto
    with d have s1: "s1 = (if g = prevDetectedGesture s then s\<lparr>stableCount := stableCount s + 1\<rparr>
               else s\<lparr>stableCount := 1, prevDetectedGesture := g\<rparr>)"
      by (simp add: debounce_quiet)
    have "\<forall>j < k. outs ! j = None"
    proof (intro allI impI)
      fix j assume "j < k"
      then have "Suc j < i" using Suc by simp
      with q have "(a # outs) ! Suc j = None" by blast
      then show "outs ! j = None" by simp
    qed
    with b [of k] i e Suc have "REQUIRED_CONSECUTIVE \<le> stableCount s1 + k + 1
            \<and> ACTION_COOLDOWN < snd (frames ! k) - lastActionTime s1" by simp
    with s1 Suc show ?thesis by (auto split: if_splits)
  qed
  with run len show ?case by auto
qed

text \<open>
  Claim C9. Right after a frame at time \<open>t0\<close> has emitted an action, further frames of
  the same gesture all run without error, and the first of them that emits again is at
  least the \<open>REQUIRED_CONSECUTIVE\<close>-th of them and comes at least \<open>ACTION_COOLDOWN\<close> after
  \<open>t0\<close>.
\<close>

theorem no_refire_until_rebuilt:
  assumes "onResults s r0 t0 = Inr (s0, Some a)"
    and "\<forall>(r, t) \<in> set frames. classified r (Some a)"
  shows "\<exists>s' outs. run s0 frames = Inr (s', outs) \<and> length outs = length frames
     \<and> (\<forall>i < length frames. outs ! i \<noteq> None \<and> (\<forall>j < i. outs ! j = None) \<longrightarrow>
            REQUIRED_CONSECUTIVE \<le> i + 1 \<and> ACTION_COOLDOWN \<le> snd (frames ! i) - t0)"
proof -
  from assms(1) have "stableCount s0 = 0 \<and> lastActionTime s0 = t0"
  proof (cases rule: onResults_cases)
    case nohand
    then show ?thesis by simp
  next
    case (hand g)
    from debounce_emit [OF hand(2)] show ?thesis by simp
  qed
  then have s0: "stableCount s0 = 0" "lastActionTime s0 = t0" by simp_all
  from assms(2) have "\<forall>(r, t) \<in> set frames. \<exists>g. classified r g" by blast
  from first_emission_bound [OF this, of s0] obtain s' outs where
    r: "run s0 frames = Inr (s', outs)" and len: "length outs = length frames" and
    b: "\<forall>i < length frames. outs ! i \<noteq> None \<and> (\<forall>j < i. outs ! j = None) \<longrightarrow>
            REQUIRED_CONSECUTIVE \<le> stableCount s0 + i + 1
            \<and> ACTION_COOLDOWN < snd (frames ! i) - lastActionTime s0"
    by blast
  from b have "\<forall>i < length frames. outs ! i \<noteq> None \<and> (\<forall>j < i. outs ! j = None) \<longrightarrow>
            REQUIRED_CONSECUTIVE \<le> i + 1 \<and> ACTION_COOLDOWN \<le> snd (frames ! i) - t0"
    unfolding s0 by (simp add: less_imp_le)
  with r len show ?thesis by blast
qed

theorem no_refire_until_rebuilt_witness:
  "run \<lparr>prevDetectedGesture = None, stableCount = 0, lastActionTime = 1000,
              output_value = ''A''\<rparr>
       [(Some [pose True False False False], 1100), (Some [pose True False False False], 1200),
        (Some [pose True False False False], 1300), (Some [pose True False False False], 1900)]
     = Inr (\<lparr>prevDetectedGesture = None, stableCount = 0, lastActionTime = 1900,
              output_value = ''AA''\<rparr>, [None, None, None, Some ''A''])
   \<and> REQUIRED_CONSECUTIVE \<le> 3 + 1 \<and> ACTION_COOLDOWN \<le> 1900 - 1000"
proof -
  let ?a = "Some [pose True False False False]"
  let ?s = "\<lparr>prevDetectedGesture = Some ''A'', stableCount = 3, lastActionTime = 0,
              output_value = []\<rparr>"
  let ?after = "\<lparr>prevDetectedGesture = None, stableCount = 0, lastActionTime = 1000,
              output_value = ''A''\<rparr>"
  let ?frames = "[(?a, 1100), (?a, 1200), (?a, 1300), (?a, 1900::int)]"
  have h1: "onResults ?s ?a 1000 = Inr (?after, Some ''A'')"
    by (simp add: eval_simps)
  have h2: "\<forall>(r, t) \<in> set ?frames. classified r (Some ''A'')"
    by (simp add: fingerStates_pose classify_def)
  have r: "run ?after ?frames = Inr (\<lparr>prevDetectedGesture = None, stableCount = 0,
      lastActionTime = 1900, output_value = ''AA''\<rparr>, [None, None, None, Some ''A''])"
    by (simp add: eval_simps)
  from no_refire_until_rebuilt [OF h1 h2] r
  have "\<forall>i < length ?frames. [None, None, None, Some ''A''] ! i \<noteq> None
          \<and> (\<forall>j < i. [None, None, None, Some ''A''] ! j = None) \<longrightarrow>
            REQUIRED_CONSECUTIVE \<le> i + 1 \<and> ACTION_COOLDOWN \<le> snd (?frames ! i) - 1000"
    by auto
  moreover have "\<forall>j < (3::nat). [None, None, None, Some ''A''] ! j = None"
    by (auto simp: less_Suc_eq numeral_3_eq_3)
  ultimately have "REQUIRED_CONSECUTIVE \<le> 3 + 1 \<and> ACTION_COOLDOWN \<le> 1900 - 1000"
    by (auto dest!: spec [of _ 3])
  with r show ?thesis by simp
qed

end
